theory Spec2Isabelle
  imports Main "HOL-Library.AList"
begin

section \<open>The deployment script \<open>deploy_cloud_run.py\<close>\<close>

text \<open>
  The script reads a dotenv file into a dictionary, writes the dictionary to a temporary
  YAML file, runs three \<open>gcloud\<close> commands and removes the temporary file.
  The embedding follows the three functions of the source: \<open>run\<close>,
  \<open>parse_env_file\<close> and \<open>main\<close>.

  \<^item> A Python \<open>str\<close> is a \<open>string\<close>; each \<open>char\<close> stands for one code point
    below 256.
  \<^item> The dictionary \<open>env_vars\<close> is an association list in insertion order;
    \<open>env_vars[key] = value\<close> is \<open>AList.update\<close>, which overwrites in place or
    appends, as a Python dictionary does.
  \<^item> The filesystem is a map from paths to the text of regular files.
  \<^item> \<open>print\<close> appends its argument to the console of the state. Only what the script
    itself prints is recorded: a child whose output is not captured writes to the
    terminal on its own.
  \<^item> \<open>sys.exit(n)\<close> is the value \<open>Inl (SystemExit n)\<close>; it passes through the
    \<open>finally\<close> block of \<open>main\<close> as the exception does.
  \<^item> External programs and the PyYAML serializer are parameters (\<open>externals\<close>). A child
    process may change the filesystem. The module \<open>yaml\<close> is taken to be installed.
\<close>

subsection \<open>Module constants\<close>

definition REGION :: string where
  "REGION = ''us-central1''"

definition SERVICE_NAME :: string where
  "SERVICE_NAME = ''openwork''"

definition PROJECT_ID :: string where
  "PROJECT_ID = ''limitless-ai-483404''"

definition IMAGE_TAG :: string where
  "IMAGE_TAG = ''gcr.io/'' @ PROJECT_ID @ ''/'' @ SERVICE_NAME @ '':latest''"

definition ENV_FILE :: string where
  "ENV_FILE = ''.env.local''"

definition TEMP_ENV_YAML :: string where
  "TEMP_ENV_YAML = ''env_vars_temp.yaml''"

subsection \<open>String operations of Python used by the script\<close>

definition dquote :: char where
  "dquote = CHR 0x22"

definition squote :: char where
  "squote = CHR 0x27"

definition hash :: char where
  "hash = CHR ''#''"

definition equals :: char where
  "equals = CHR ''=''"

text \<open>The code points below 256 for which \<open>str.isspace\<close> holds; \<open>str.strip()\<close> removes them.\<close>

definition whitespace :: "char list" where
  "whitespace =
     [CHR 0x09, CHR 0x0A, CHR 0x0B, CHR 0x0C, CHR 0x0D,
      CHR 0x1C, CHR 0x1D, CHR 0x1E, CHR 0x1F, CHR 0x20, CHR 0x85, CHR 0xA0]"

definition isspace :: "char \<Rightarrow> bool" where
  "isspace c \<longleftrightarrow> c \<in> set whitespace"

definition lstrip :: "string \<Rightarrow> string" where
  "lstrip s = dropWhile isspace s"

definition rstrip :: "string \<Rightarrow> string" where
  "rstrip s = rev (dropWhile isspace (rev s))"

definition strip :: "string \<Rightarrow> string" where
  "strip s = rstrip (lstrip s)"

definition startswith :: "string \<Rightarrow> char \<Rightarrow> bool" where
  "startswith s c = (case s of [] \<Rightarrow> False | x # _ \<Rightarrow> x = c)"

definition endswith :: "string \<Rightarrow> char \<Rightarrow> bool" where
  "endswith s c \<longleftrightarrow> s \<noteq> [] \<and> last s = c"

text \<open>\<open>s.split(c, 1)\<close> for a string that contains \<open>c\<close>: the text before the first \<open>c\<close> and
  the text after it.\<close>

definition split_first :: "char \<Rightarrow> string \<Rightarrow> string \<times> string" where
  "split_first c s = (takeWhile (\<lambda>x. x \<noteq> c) s, drop 1 (dropWhile (\<lambda>x. x \<noteq> c) s))"

text \<open>The slice \<open>s[1:-1]\<close>; it is empty for a string of fewer than two characters.\<close>

definition slice_1_m1 :: "string \<Rightarrow> string" where
  "slice_1_m1 s = drop 1 (take (length s - 1) s)"

text \<open>\<open>x or d\<close> for an optional string \<open>x\<close>: \<open>None\<close> and the empty string are falsy.\<close>

definition or_str :: "string option \<Rightarrow> string \<Rightarrow> string" where
  "or_str x d = (case x of None \<Rightarrow> d | Some t \<Rightarrow> if t = [] then d else t)"

text \<open>Iterating over a file opened in text mode: \<open>\r\n\<close> and a lone \<open>\r\<close> are read as
  \<open>\n\<close>, and every line keeps its terminator.\<close>

fun lines_from :: "string \<Rightarrow> string \<Rightarrow> string list" where
  "lines_from cur [] = (if cur = [] then [] else [cur])"
| "lines_from cur (c # cs) =
     (if c = CHR 0x0A then (cur @ [CHR 0x0A]) # lines_from [] cs
      else if c = CHR 0x0D then
        (cur @ [CHR 0x0A]) # lines_from [] (if cs \<noteq> [] \<and> hd cs = CHR 0x0A then tl cs else cs)
      else lines_from (cur @ [c]) cs)"

definition read_lines :: "string \<Rightarrow> string list" where
  "read_lines content = lines_from [] content"

subsection \<open>State of a run\<close>

datatype command = Args "string list" | Shell string

text \<open>What \<open>subprocess.run\<close> does with a command: the executable is missing
  (\<open>FileNotFoundError\<close>, with its message), or the child runs to completion with a return
  code, the text it wrote to standard output and to standard error, and the filesystem it
  leaves behind.\<close>

datatype outcome =
    NotFound string
  | Completed int string string "string \<rightharpoonup> string"

record state =
  files :: "string \<rightharpoonup> string"
  console :: "string list"
  invoked :: "(command \<times> outcome) list"

record externals =
  exec :: "command \<Rightarrow> (string \<rightharpoonup> string) \<Rightarrow> outcome"
  yaml_dump :: "(string \<times> string) list \<Rightarrow> string"

record completed_process =
  returncode :: int
  stdout :: "string option"
  stderr :: "string option"

datatype exn = SystemExit int

definition initial :: "(string \<rightharpoonup> string) \<Rightarrow> state" where
  "initial fs = \<lparr>files = fs, console = [], invoked = []\<rparr>"

definition print :: "string \<Rightarrow> state \<Rightarrow> state" where
  "print msg s = s\<lparr>console := console s @ [msg]\<rparr>"

text \<open>The exit code of the process: the argument of \<open>sys.exit\<close>, or 0 when \<open>main\<close>
  returns. Return codes are the integers that \<open>subprocess.run\<close> reports and that
  \<open>sys.exit\<close> receives; what the operating system makes of an integer outside its range
  of exit statuses is not part of the script.\<close>

definition exit_code :: "exn + unit \<Rightarrow> int" where
  "exit_code r = (case r of Inl (SystemExit n) \<Rightarrow> n | Inr _ \<Rightarrow> 0)"

subsection \<open>\<open>run\<close>\<close>

definition run ::
  "externals \<Rightarrow> command \<Rightarrow> bool \<Rightarrow> bool \<Rightarrow> state \<Rightarrow> (exn + completed_process) \<times> state" where
  "run ext cmd check capture s =
     (let oc = exec ext cmd (files s);
          s1 = s\<lparr>invoked := invoked s @ [(cmd, oc)]\<rparr>
      in case oc of
           NotFound e \<Rightarrow> (Inl (SystemExit 1), print (''Command not found: '' @ e) s1)
         | Completed rc out err fs \<Rightarrow>
             (let result = \<lparr>returncode = rc,
                            stdout = (if capture then Some out else None),
                            stderr = (if capture then Some err else None)\<rparr>;
                  s2 = s1\<lparr>files := fs\<rparr>
              in if check \<and> returncode result \<noteq> 0 then
                   (let msg = or_str (stderr result) (or_str (stdout result) ''Command failed.'')
                    in (Inl (SystemExit (returncode result)),
                        if \<not> capture then print msg s2 else s2))
                 else (Inr result, s2)))"

subsection \<open>\<open>parse_env_file\<close>\<close>

text \<open>The quote step of the loop body: a value that starts and ends with a double quote, or
  starts and ends with a single quote, loses its first and last character.\<close>

definition unquote :: "string \<Rightarrow> string" where
  "unquote val =
     (if (startswith val dquote \<and> endswith val dquote) \<or>
         (startswith val squote \<and> endswith val squote)
      then slice_1_m1 val else val)"

text \<open>The body of the loop over the lines, up to the assignment: the key and the value
  that a line binds, or \<open>None\<close> for a line that is skipped.\<close>

definition parse_line :: "string \<Rightarrow> (string \<times> string) option" where
  "parse_line raw =
     (let line = strip raw
      in if line = [] \<or> startswith line hash then None
         else
           (let line1 = (if hash \<in> set line then strip (fst (split_first hash line)) else line)
            in if equals \<in> set line1 then
                 (let (key, val) = split_first equals line1;
                      key1 = strip key;
                      val1 = strip val;
                      val2 = unquote val1
                  in Some (key1, val2))
               else None))"

definition parse_step :: "string \<Rightarrow> (string \<times> string) list \<Rightarrow> (string \<times> string) list" where
  "parse_step raw env_vars =
     (case parse_line raw of None \<Rightarrow> env_vars | Some (key, val) \<Rightarrow> AList.update key val env_vars)"

definition parse_env_file :: "string \<Rightarrow> state \<Rightarrow> (string \<times> string) list \<times> state" where
  "parse_env_file filepath s =
     (case files s filepath of
        None \<Rightarrow> ([], print (''Error: '' @ filepath @ '' not found.'') s)
      | Some content \<Rightarrow> (fold parse_step (read_lines content) [], s))"

subsection \<open>\<open>main\<close>\<close>

definition build_cmd :: command where
  "build_cmd =
     Args [''gcloud'', ''builds'', ''submit'', ''--tag'', IMAGE_TAG, ''--project'', PROJECT_ID, ''.'']"

definition deploy_cmd :: command where
  "deploy_cmd =
     Args [''gcloud'', ''run'', ''deploy'', SERVICE_NAME,
           ''--image'', IMAGE_TAG,
           ''--project'', PROJECT_ID,
           ''--region'', REGION,
           ''--platform'', ''managed'',
           ''--allow-unauthenticated'',
           ''--port'', ''8080'',
           ''--memory'', ''1Gi'',
           ''--timeout'', ''300'',
           ''--min-instances'', ''0'',
           ''--max-instances'', ''10'',
           ''--env-vars-file'', TEMP_ENV_YAML]"

definition describe_cmd :: command where
  "describe_cmd =
     Args [''gcloud'', ''run'', ''services'', ''describe'', SERVICE_NAME,
           ''--project'', PROJECT_ID, ''--region'', REGION,
           ''--format'', ''value(status.url)'']"

definition msg_project :: string where
  "msg_project = ''Project: '' @ PROJECT_ID @ '' (Limitless.ai)''"

definition msg_target :: string where
  "msg_target = ''Target URL: https://openwork-217388700222.us-central1.run.app''"

definition msg_reading :: string where
  "msg_reading = ''Reading env from '' @ ENV_FILE @ ''...''"

definition msg_no_env :: string where
  "msg_no_env = ''No environment variables found. Exiting.''"

definition msg_warning :: string where
  "msg_warning =
     ''Warning: GEMINI_API_KEY not set in .env.local. Chat API will return 500 until set.''"

definition msg_build :: string where
  "msg_build =
     CHR 0x0A # ''[1/3] Building image in Google Cloud Build (this may take a few minutes)...''"

definition msg_deploy :: string where
  "msg_deploy = CHR 0x0A # ''[2/3] Deploying to Cloud Run...''"

definition msg_url :: string where
  "msg_url = CHR 0x0A # ''[3/3] Service URL:''"

definition msg_success :: string where
  "msg_success = CHR 0x0A # ''Deployment successful. DevPost link should work.''"

definition msg_fallback_url :: string where
  "msg_fallback_url = ''  https://openwork-217388700222.us-central1.run.app''"

definition msg_finished :: string where
  "msg_finished = CHR 0x0A # ''Deployment finished. Check Cloud Run console if needed.''"

text \<open>The body of the \<open>try\<close> block.\<close>

definition main_try :: "externals \<Rightarrow> state \<Rightarrow> (exn + unit) \<times> state" where
  "main_try ext s =
     (case run ext build_cmd True False (print msg_build s) of
        (Inl e, s1) \<Rightarrow> (Inl e, s1)
      | (Inr _, s1) \<Rightarrow>
          (case run ext deploy_cmd True False (print msg_deploy s1) of
             (Inl e, s2) \<Rightarrow> (Inl e, s2)
           | (Inr _, s2) \<Rightarrow>
               (case run ext describe_cmd True True (print msg_url s2) of
                  (Inl e, s3) \<Rightarrow> (Inl e, s3)
                | (Inr r, s3) \<Rightarrow>
                    (let url = strip (or_str (stdout r) [])
                     in if url \<noteq> [] then
                          (Inr (), print msg_success (print (''  '' @ url) s3))
                        else
                          (Inr (), print msg_finished (print msg_fallback_url s3))))))"

text \<open>The \<open>finally\<close> block.\<close>

definition cleanup :: "state \<Rightarrow> state" where
  "cleanup s =
     (if files s TEMP_ENV_YAML \<noteq> None then s\<lparr>files := (files s)(TEMP_ENV_YAML := None)\<rparr>
      else s)"

definition main :: "externals \<Rightarrow> state \<Rightarrow> (exn + unit) \<times> state" where
  "main ext s =
     (let s1 = print msg_reading (print msg_target (print msg_project s));
          (env_vars, s2) = parse_env_file ENV_FILE s1
      in if env_vars = [] then (Inl (SystemExit 1), print msg_no_env s2)
         else
           (let s3 = (if or_str (map_of env_vars ''GEMINI_API_KEY'') [] = []
                      then print msg_warning s2 else s2);
                s4 = s3\<lparr>files := (files s3)(TEMP_ENV_YAML \<mapsto> yaml_dump ext env_vars)\<rparr>;
                (r, s5) = main_try ext s4
            in (r, cleanup s5)))"

text \<open>The state in which \<open>main\<close> enters the \<open>try\<close> block when the parsed dictionary
  \<open>env_vars\<close> is not empty: three lines and possibly the warning are printed, and the
  temporary file holds the serialized dictionary.\<close>

definition prepared :: "externals \<Rightarrow> (string \<times> string) list \<Rightarrow> state \<Rightarrow> state" where
  "prepared ext env_vars s =
     (let s1 = print msg_reading (print msg_target (print msg_project s));
          s3 = (if or_str (map_of env_vars ''GEMINI_API_KEY'') [] = []
                then print msg_warning s1 else s1)
      in s3\<lparr>files := (files s3)(TEMP_ENV_YAML \<mapsto> yaml_dump ext env_vars)\<rparr>)"

subsection \<open>The specification's reading of quoting\<close>

text \<open>The specification says that a value wrapped in one matching pair of double or single
  quotes loses exactly that pair. \<open>spec_unquoted\<close> follows these words, to be compared with
  \<open>unquote\<close>, which follows the source.\<close>

definition wrapped_in :: "char \<Rightarrow> string \<Rightarrow> bool" where
  "wrapped_in q s \<longleftrightarrow> 2 \<le> length s \<and> hd s = q \<and> last s = q"

definition spec_unquoted :: "string \<Rightarrow> string" where
  "spec_unquoted s = (if wrapped_in dquote s \<or> wrapped_in squote s then butlast (tl s) else s)"

subsection \<open>Example runs\<close>

text \<open>A dotenv file of two lines, \<open>A=1\<close> and \<open>B="two"\<close>, and two worlds: one in which the
  build exits with code 2, one in which every command succeeds and the describe command
  writes a given text to its standard output.\<close>

definition example_env :: string where
  "example_env = ''A=1'' @ [CHR 0x0A] @ ''B='' @ [dquote] @ ''two'' @ [dquote] @ [CHR 0x0A]"

definition example_files :: "string \<rightharpoonup> string" where
  "example_files = [ENV_FILE \<mapsto> example_env]"

definition example_dump :: "(string \<times> string) list \<Rightarrow> string" where
  "example_dump env_vars = concat (map (\<lambda>(k, v). k @ '': '' @ v @ [CHR 0x0A]) env_vars)"

definition build_fails :: externals where
  "build_fails =
     \<lparr>exec = (\<lambda>cmd fs. if cmd = build_cmd then Completed 2 [] ''denied'' fs
                        else Completed 0 [] [] fs),
      yaml_dump = example_dump\<rparr>"

definition all_succeed :: "string \<Rightarrow> externals" where
  "all_succeed url =
     \<lparr>exec = (\<lambda>cmd fs. if cmd = describe_cmd then Completed 0 url [] fs
                        else Completed 0 [] [] fs),
      yaml_dump = example_dump\<rparr>"

section \<open>Properties\<close>

subsection \<open>State bookkeeping\<close>

lemma files_print [simp]: "files (print m s) = files s"
  by (simp add: print_def)

lemma invoked_print [simp]: "invoked (print m s) = invoked s"
  by (simp add: print_def)

lemma console_print [simp]: "console (print m s) = console s @ [m]"
  by (simp add: print_def)

lemma files_cleanup [simp]: "files (cleanup s) TEMP_ENV_YAML = None"
  by (simp add: cleanup_def)

lemma invoked_cleanup [simp]: "invoked (cleanup s) = invoked s"
  by (simp add: cleanup_def)

lemma console_cleanup [simp]: "console (cleanup s) = console s"
  by (simp add: cleanup_def)

lemma invoked_initial [simp]: "invoked (initial fs) = []"
  by (simp add: initial_def)

lemma console_initial [simp]: "console (initial fs) = []"
  by (simp add: initial_def)

lemma files_initial [simp]: "files (initial fs) = fs"
  by (simp add: initial_def)

lemma invoked_prepared [simp]: "invoked (prepared ext env s) = invoked s"
  by (simp add: prepared_def Let_def)

lemma console_prepared:
  "console (prepared ext env s) =
     console s @ [msg_project, msg_target, msg_reading] @
       (if or_str (map_of env ''GEMINI_API_KEY'') [] = [] then [msg_warning] else [])"
  by (simp add: prepared_def Let_def)

lemma files_prepared:
  "files (prepared ext env s) = (files s)(TEMP_ENV_YAML \<mapsto> yaml_dump ext env)"
  by (simp add: prepared_def Let_def)

lemma cmds_distinct [simp]:
  "build_cmd \<noteq> deploy_cmd" "build_cmd \<noteq> describe_cmd" "deploy_cmd \<noteq> describe_cmd"
  "deploy_cmd \<noteq> build_cmd" "describe_cmd \<noteq> build_cmd" "describe_cmd \<noteq> deploy_cmd"
  by (simp_all add: build_cmd_def deploy_cmd_def describe_cmd_def)

lemma msgs_distinct:
  "msg_success \<notin> {msg_project, msg_target, msg_reading, msg_warning, msg_build, msg_deploy,
      msg_url, msg_fallback_url, msg_finished}"
  "msg_finished \<notin> {msg_project, msg_target, msg_reading, msg_warning, msg_build, msg_deploy,
      msg_url, msg_success}"
  "msg_success \<noteq> ''  '' @ u" "msg_finished \<noteq> ''  '' @ u"
  by (simp_all add: msg_success_def msg_project_def msg_target_def msg_reading_def
      msg_warning_def msg_build_def msg_deploy_def msg_url_def msg_fallback_url_def
      msg_finished_def)

subsection \<open>The command runner\<close>

lemma run_NotFound:
  "exec ext cmd (files s) = NotFound e \<Longrightarrow>
   run ext cmd check capture s =
     (Inl (SystemExit 1),
      print (''Command not found: '' @ e) (s\<lparr>invoked := invoked s @ [(cmd, NotFound e)]\<rparr>))"
  by (simp add: run_def Let_def)

lemma run_failed:
  "exec ext cmd (files s) = Completed rc out err fs \<Longrightarrow> rc \<noteq> 0 \<Longrightarrow>
   run ext cmd True capture s =
     (Inl (SystemExit rc),
      (if capture then (\<lambda>s. s) else print ''Command failed.'')
        (s\<lparr>invoked := invoked s @ [(cmd, Completed rc out err fs)], files := fs\<rparr>))"
  by (simp add: run_def Let_def or_str_def)

lemma run_ok:
  "exec ext cmd (files s) = Completed 0 out err fs \<Longrightarrow>
   run ext cmd check capture s =
     (Inr \<lparr>returncode = 0, stdout = (if capture then Some out else None),
            stderr = (if capture then Some err else None)\<rparr>,
      s\<lparr>invoked := invoked s @ [(cmd, Completed 0 out err fs)], files := fs\<rparr>)"
  by (simp add: run_def Let_def)

subsection \<open>The orchestrator\<close>

lemma parse_env_file_print [simp]:
  "fst (parse_env_file p (print m s)) = fst (parse_env_file p s)"
  by (simp add: parse_env_file_def split: option.splits)

lemma parse_env_file_state:
  "fst (parse_env_file p s) \<noteq> [] \<Longrightarrow> snd (parse_env_file p s) = s"
  by (simp add: parse_env_file_def split: option.splits)

lemma main_nonempty:
  assumes "fst (parse_env_file ENV_FILE s) \<noteq> []"
  shows "main ext s =
           (fst (main_try ext (prepared ext (fst (parse_env_file ENV_FILE s)) s)),
            cleanup (snd (main_try ext (prepared ext (fst (parse_env_file ENV_FILE s)) s))))"
proof -
  let ?s1 = "print msg_reading (print msg_target (print msg_project s))"
  have e: "fst (parse_env_file ENV_FILE ?s1) = fst (parse_env_file ENV_FILE s)"
    by simp
  with assms have "snd (parse_env_file ENV_FILE ?s1) = ?s1"
    by (simp add: parse_env_file_state)
  with e have "parse_env_file ENV_FILE ?s1 = (fst (parse_env_file ENV_FILE s), ?s1)"
    by (metis prod.collapse)
  with assms show ?thesis
    by (simp add: main_def prepared_def Let_def split: prod.splits)
qed

lemma main_empty:
  assumes "fst (parse_env_file ENV_FILE s) = []"
  shows "fst (main ext s) = Inl (SystemExit 1)"
    and "invoked (snd (main ext s)) = invoked s"
    and "\<exists>pre. console (snd (main ext s)) = pre @ [msg_no_env]"
  using assms
  by (auto simp add: main_def Let_def parse_env_file_def split: prod.splits option.splits)

lemma main_try_invoked:
  "\<exists>rest. invoked (snd (main_try ext s)) =
     invoked s @ (build_cmd, exec ext build_cmd (files s)) # rest"
  by (auto simp add: main_try_def run_def Let_def split: outcome.splits)

lemma main_try_console:
  "\<exists>rest. console (snd (main_try ext s)) = console s @ msg_build # rest"
  by (auto simp add: main_try_def run_def Let_def split: outcome.splits)

lemma main_try_NotFound:
  "exec ext build_cmd (files s) = NotFound e \<Longrightarrow>
   invoked (snd (main_try ext s)) = invoked s @ [(build_cmd, NotFound e)]"
  by (simp add: main_try_def run_NotFound)

lemma main_try_failed:
  "exec ext build_cmd (files s) = Completed rc out err fs \<Longrightarrow> rc \<noteq> 0 \<Longrightarrow>
   invoked (snd (main_try ext s)) = invoked s @ [(build_cmd, Completed rc out err fs)] \<and>
   fst (main_try ext s) = Inl (SystemExit rc)"
  by (simp add: main_try_def run_failed)

lemma main_try_ok:
  "exec ext build_cmd (files s) = Completed 0 out err fs \<Longrightarrow>
   \<exists>x rest. invoked (snd (main_try ext s)) =
      invoked s @ (build_cmd, Completed 0 out err fs) # x # rest \<and>
      fst x = deploy_cmd \<and> (\<forall>y \<in> set rest. fst y = describe_cmd)"
  by (auto simp add: main_try_def run_ok run_def Let_def split: outcome.splits)

lemma main_try_success:
  assumes "exec ext build_cmd (files s) = Completed 0 out1 err1 fs1"
    and "exec ext deploy_cmd fs1 = Completed 0 out2 err2 fs2"
    and "exec ext describe_cmd fs2 = Completed 0 out3 err3 fs3"
  shows "invoked (snd (main_try ext s)) =
           invoked s @ [(build_cmd, Completed 0 out1 err1 fs1),
                        (deploy_cmd, Completed 0 out2 err2 fs2),
                        (describe_cmd, Completed 0 out3 err3 fs3)]"
  using assms by (simp add: main_try_def run_ok Let_def)

lemma main_try_described:
  assumes "(describe_cmd, Completed 0 out err fs') \<in> set (invoked (snd (main_try ext s)))"
    and "invoked s = []"
  shows "fst (main_try ext s) = Inr () \<and>
         console (snd (main_try ext s)) =
           console s @ [msg_build, msg_deploy, msg_url] @
             (if strip out \<noteq> [] then [''  '' @ strip out, msg_success]
              else [msg_fallback_url, msg_finished])"
  using assms
  by (auto simp add: main_try_def run_def Let_def or_str_def split: outcome.splits if_splits)

subsection \<open>The example runs\<close>

lemma example_parsed:
  "fst (parse_env_file ENV_FILE (initial example_files)) = [(''A'', ''1''), (''B'', ''two'')]"
  by code_simp

lemma build_fails_exec:
  "exec build_fails build_cmd fs = Completed 2 [] ''denied'' fs"
  "yaml_dump build_fails = example_dump"
  by (simp_all add: build_fails_def)

lemma all_succeed_exec:
  "exec (all_succeed url) build_cmd fs = Completed 0 [] [] fs"
  "exec (all_succeed url) deploy_cmd fs = Completed 0 [] [] fs"
  "exec (all_succeed url) describe_cmd fs = Completed 0 url [] fs"
  "yaml_dump (all_succeed url) = example_dump"
  by (simp_all add: all_succeed_def)

lemma build_fails_trace:
  "invoked (snd (main build_fails (initial example_files))) =
     [(build_cmd, Completed 2 [] ''denied''
         (example_files(TEMP_ENV_YAML \<mapsto> example_dump [(''A'', ''1''), (''B'', ''two'')])))]"
  using main_try_failed [of build_fails "prepared build_fails [(''A'', ''1''), (''B'', ''two'')] (initial example_files)" 2 "[]" "''denied''"]
  by (simp add: main_nonempty example_parsed build_fails_exec files_prepared)

lemma all_succeed_trace:
  "invoked (snd (main (all_succeed url) (initial example_files))) =
     [(build_cmd, Completed 0 [] []
         (example_files(TEMP_ENV_YAML \<mapsto> example_dump [(''A'', ''1''), (''B'', ''two'')]))),
      (deploy_cmd, Completed 0 [] []
         (example_files(TEMP_ENV_YAML \<mapsto> example_dump [(''A'', ''1''), (''B'', ''two'')]))),
      (describe_cmd, Completed 0 url []
         (example_files(TEMP_ENV_YAML \<mapsto> example_dump [(''A'', ''1''), (''B'', ''two'')])))]"
  using main_try_success [of "all_succeed url"
      "prepared (all_succeed url) [(''A'', ''1''), (''B'', ''two'')] (initial example_files)"
      "[]" "[]" _ "[]" "[]" _ url "[]"]
  by (simp add: main_nonempty example_parsed all_succeed_exec files_prepared)

subsection \<open>The parser\<close>

lemma not_space [simp]:
  "\<not> isspace equals" "\<not> isspace hash" "\<not> isspace dquote" "\<not> isspace squote"
  by (simp_all add: isspace_def whitespace_def equals_def hash_def dquote_def squote_def)

lemma special_distinct [simp]:
  "equals \<noteq> hash" "hash \<noteq> equals" "dquote \<noteq> hash" "squote \<noteq> hash"
  "hash \<noteq> dquote" "hash \<noteq> squote" "dquote \<noteq> squote" "squote \<noteq> dquote"
  by (simp_all add: equals_def hash_def dquote_def squote_def)

lemma lstrip_nonspace: "\<not> isspace y \<Longrightarrow> lstrip (xs @ y # ys) = lstrip xs @ y # ys"
  by (simp add: lstrip_def dropWhile_append3)

lemma rstrip_nonspace: "\<not> isspace y \<Longrightarrow> rstrip (xs @ y # ys) = xs @ y # rstrip ys"
  by (simp add: rstrip_def dropWhile_append3)

lemma strip_nonspace: "\<not> isspace y \<Longrightarrow> strip (xs @ y # ys) = lstrip xs @ y # rstrip ys"
  by (simp add: strip_def lstrip_nonspace rstrip_nonspace)

lemma lstrip_idem [simp]: "lstrip (lstrip s) = lstrip s"
  by (simp add: lstrip_def)

lemma rstrip_idem [simp]: "rstrip (rstrip s) = rstrip s"
  by (simp add: rstrip_def)

lemma lstrip_spaces: "\<forall>x \<in> set s. isspace x \<Longrightarrow> lstrip s = []"
  by (simp add: lstrip_def)

lemma rstrip_spaces: "\<forall>x \<in> set s. isspace x \<Longrightarrow> rstrip s = []"
  by (simp add: rstrip_def)

lemma lstrip_rstrip: "lstrip (rstrip s) = rstrip (lstrip s)"
proof (cases "\<forall>x \<in> set s. isspace x")
  case True
  then have l: "lstrip s = []" and r: "rstrip s = []"
    by (simp_all add: lstrip_spaces rstrip_spaces)
  have e: "lstrip [] = []" "rstrip [] = []"
    by (simp_all add: lstrip_def rstrip_def)
  show ?thesis
    unfolding l r e by (rule refl)
next
  case False
  then have "\<exists>x \<in> set s. \<not> isspace x"
    by simp
  from split_list_first_prop [OF this]
  obtain a y b where s: "s = a @ y # b" and y: "\<not> isspace y" and a: "\<forall>x \<in> set a. isspace x"
    by auto
  from y a have "lstrip s = y # b"
    by (simp add: s lstrip_nonspace lstrip_spaces)
  moreover from y have "rstrip (y # b) = y # rstrip b"
    using rstrip_nonspace [of y "[]" b] by simp
  moreover from y a have "lstrip (rstrip s) = y # rstrip b"
    by (simp add: s rstrip_nonspace lstrip_nonspace lstrip_spaces)
  ultimately show ?thesis by simp
qed

lemma strip_lstrip [simp]: "strip (lstrip s) = strip s"
  by (simp add: strip_def)

lemma strip_rstrip [simp]: "strip (rstrip s) = strip s"
  by (simp add: strip_def lstrip_rstrip)

lemma set_lstrip: "set (lstrip s) \<subseteq> set s"
  by (simp add: lstrip_def set_dropWhileD subsetI)

lemma set_rstrip: "set (rstrip s) \<subseteq> set s"
  using set_dropWhileD [of _ isspace "rev s"] by (auto simp add: rstrip_def)

lemma startswith_append:
  "c \<notin> set xs \<Longrightarrow> y \<noteq> c \<Longrightarrow> \<not> startswith (xs @ y # ys) c"
  by (cases xs) (auto simp add: startswith_def)

lemma split_first_at:
  "c \<notin> set xs \<Longrightarrow> split_first c (xs @ c # ys) = (xs, ys)"
  by (induction xs) (auto simp add: split_first_def)

lemma well_formed_line_parts:
  assumes k: "equals \<notin> set k" "hash \<notin> set k"
    and v: "hash \<notin> set v"
    and c: "c = [] \<or> startswith c hash"
  shows "strip (k @ equals # v @ c) \<noteq> []"
    and "\<not> startswith (strip (k @ equals # v @ c)) hash"
    and "(if hash \<in> set (strip (k @ equals # v @ c))
          then strip (fst (split_first hash (strip (k @ equals # v @ c))))
          else strip (k @ equals # v @ c)) = lstrip k @ equals # rstrip v"
    and "equals \<in> set (lstrip k @ equals # rstrip v)"
    and "split_first equals (lstrip k @ equals # rstrip v) = (lstrip k, rstrip v)"
proof -
  let ?line = "strip (k @ equals # v @ c)"
  have lk: "equals \<notin> set (lstrip k)" "hash \<notin> set (lstrip k)"
    using k set_lstrip [of k] by auto
  have rv: "hash \<notin> set (rstrip v)"
    using v set_rstrip [of v] by auto
  have line: "?line = lstrip k @ equals # rstrip (v @ c)"
    by (simp add: strip_nonspace)
  show "?line \<noteq> []"
    by (simp add: line)
  show "\<not> startswith ?line hash"
    unfolding line using lk(2) by (rule startswith_append) simp
  show "(if hash \<in> set ?line then strip (fst (split_first hash ?line)) else ?line) =
      lstrip k @ equals # rstrip v"
  proof (cases "c = []")
    case True
    with lk rv show ?thesis
      by (simp add: strip_nonspace)
  next
    case False
    with c obtain c' where c': "c = hash # c'"
      by (cases c) (auto simp add: startswith_def)
    have "?line = (lstrip k @ equals # v) @ hash # rstrip c'"
      by (simp add: c' strip_nonspace rstrip_nonspace)
    moreover have "hash \<notin> set (lstrip k @ equals # v)"
      using lk v by simp
    ultimately have "fst (split_first hash ?line) = lstrip k @ equals # v" "hash \<in> set ?line"
      by (simp_all add: split_first_at del: append_assoc)
    then show ?thesis
      by (simp add: strip_nonspace)
  qed
  show "equals \<in> set (lstrip k @ equals # rstrip v)"
    by simp
  show "split_first equals (lstrip k @ equals # rstrip v) = (lstrip k, rstrip v)"
    using lk(1) by (rule split_first_at)
qed

lemma quote_test_spec:
  assumes "s \<noteq> [q]"
  shows "(startswith s q \<and> endswith s q) = wrapped_in q s"
proof (cases s)
  case Nil
  then show ?thesis
    by (simp add: startswith_def endswith_def wrapped_in_def)
next
  case (Cons a t)
  with assms show ?thesis
    by (cases t) (auto simp add: startswith_def endswith_def wrapped_in_def)
qed

lemma slice_spec: "slice_1_m1 s = butlast (tl s)"
  by (simp add: slice_1_m1_def drop_take butlast_conv_take drop_Suc)

lemma set_strip: "x \<in> set s \<Longrightarrow> isspace x \<or> x \<in> set (strip s)"
proof -
  have d: "y \<in> set xs \<Longrightarrow> \<not> isspace y \<Longrightarrow> y \<in> set (dropWhile isspace xs)" for y xs
    by (induction xs) auto
  assume "x \<in> set s"
  then show ?thesis
    using d [of x s] d [of x "rev (dropWhile isspace s)"]
    by (auto simp add: strip_def lstrip_def rstrip_def)
qed

lemma fold_parse_step_other:
  "\<forall>l \<in> set ls. map_option fst (parse_line l) \<noteq> Some key \<Longrightarrow>
   map_of (fold parse_step ls env_vars) key = map_of env_vars key"
proof (induction ls arbitrary: env_vars)
  case Nil
  then show ?case by simp
next
  case (Cons l ls)
  then have "map_of (parse_step l env_vars) key = map_of env_vars key"
    by (auto simp add: parse_step_def update_conv' split: option.splits)
  with Cons show ?case
    by simp
qed

lemma fold_parse_step_keys:
  "key \<in> fst ` set env_vars \<Longrightarrow> key \<in> fst ` set (fold parse_step ls env_vars)"
proof (induction ls arbitrary: env_vars)
  case Nil
  then show ?case by simp
next
  case (Cons l ls)
  from Cons.prems have "key \<in> fst ` set (parse_step l env_vars)"
    by (auto simp add: parse_step_def dom_update split: option.splits)
  then show ?case
    using Cons.IH by simp
qed

section \<open>The claims\<close>

text \<open>
  Claim C1. Whenever the parsed dictionary is not empty, so that \<open>main\<close> writes the temporary
  YAML file, the file is absent from the filesystem when \<open>main\<close> ends. The statement holds
  for every behaviour of the external commands, hence on every exit path: all three
  commands succeed, or the build, the deploy or the describe command fails or is not found.
\<close>

theorem temp_file_removed:
  "fst (parse_env_file ENV_FILE (initial fs)) \<noteq> [] \<Longrightarrow>
   files (snd (main ext (initial fs))) TEMP_ENV_YAML = None"
  by (simp add: main_nonempty)

theorem temp_file_removed_witness:
  "fst (parse_env_file ENV_FILE (initial example_files)) \<noteq> [] \<and>
   files (snd (main build_fails (initial example_files))) TEMP_ENV_YAML = None"
  using temp_file_removed [of example_files build_fails] by (simp add: example_parsed)

text \<open>
  Claim C2. If the trace of a run shows the build command completing with a return code
  other than 0, then the build command is the only command invoked (neither the deploy nor
  the describe command runs) and the process exits with the build's return code.
\<close>

theorem build_failure_halts:
  assumes "(build_cmd, Completed rc out err fs') \<in> set (invoked (snd (main ext (initial fs))))"
    and "rc \<noteq> 0"
  shows "map fst (invoked (snd (main ext (initial fs)))) = [build_cmd] \<and>
         deploy_cmd \<notin> fst ` set (invoked (snd (main ext (initial fs)))) \<and>
         describe_cmd \<notin> fst ` set (invoked (snd (main ext (initial fs)))) \<and>
         fst (main ext (initial fs)) = Inl (SystemExit rc) \<and>
         exit_code (fst (main ext (initial fs))) = rc"
proof (cases "fst (parse_env_file ENV_FILE (initial fs)) = []")
  case True
  with assms(1) show ?thesis
    by (simp add: main_empty)
next
  case False
  let ?s = "prepared ext (fst (parse_env_file ENV_FILE (initial fs))) (initial fs)"
  from False have m: "main ext (initial fs) = (fst (main_try ext ?s), cleanup (snd (main_try ext ?s)))"
    by (rule main_nonempty)
  from assms(1) have mem: "(build_cmd, Completed rc out err fs') \<in> set (invoked (snd (main_try ext ?s)))"
    by (simp add: m)
  show ?thesis
  proof (cases "exec ext build_cmd (files ?s)")
    case (NotFound e)
    with mem show ?thesis
      by (simp add: main_try_NotFound)
  next
    case (Completed rc' out' err' fs'')
    show ?thesis
    proof (cases "rc' = 0")
      case True
      with Completed main_try_ok [of ext ?s out' err' fs''] obtain x rest where
        inv: "invoked (snd (main_try ext ?s)) = (build_cmd, Completed 0 out' err' fs'') # x # rest"
        and x: "fst x = deploy_cmd" and rest: "\<forall>y \<in> set rest. fst y = describe_cmd"
        by auto
      from mem inv assms(2) have "(build_cmd, Completed rc out err fs') = x \<or>
          (build_cmd, Completed rc out err fs') \<in> set rest"
        by auto
      with x rest have False
        by fastforce
      then show ?thesis ..
    next
      case False
      with Completed main_try_failed [of ext ?s rc' out' err' fs''] mem
      show ?thesis by (auto simp add: m exit_code_def)
    qed
  qed
qed

theorem build_failure_halts_witness:
  "(build_cmd, Completed 2 [] ''denied''
      (example_files(TEMP_ENV_YAML \<mapsto> example_dump [(''A'', ''1''), (''B'', ''two'')])))
     \<in> set (invoked (snd (main build_fails (initial example_files)))) \<and>
   (2::int) \<noteq> 0 \<and>
   map fst (invoked (snd (main build_fails (initial example_files)))) = [build_cmd] \<and>
   exit_code (fst (main build_fails (initial example_files))) = 2"
proof -
  have mem: "(build_cmd, Completed 2 [] ''denied''
      (example_files(TEMP_ENV_YAML \<mapsto> example_dump [(''A'', ''1''), (''B'', ''two'')])))
     \<in> set (invoked (snd (main build_fails (initial example_files))))"
    by (simp add: build_fails_trace)
  have ne: "(2::int) \<noteq> 0"
    by simp
  from build_failure_halts [OF mem ne] mem ne show ?thesis
    by blast
qed

text \<open>
  Claim C3. The claim says that a failing command run with \<open>check=True\<close> has its captured
  error stream printed before the process exits. The runner builds that diagnostic but
  prints it only when \<open>capture\<close> is false, when nothing was captured: a command run with
  \<open>check=True, capture=True\<close> that exits with code 1 and the text \<open>boom\<close> on standard error
  leaves the console empty, and the process exits with code 1.
\<close>

theorem run_swallows_captured_stderr:
  "run \<lparr>exec = (\<lambda>cmd fs. Completed 1 [] ''boom'' fs), yaml_dump = example_dump\<rparr>
       describe_cmd True True (initial Map.empty) =
     (Inl (SystemExit 1),
      \<lparr>files = Map.empty, console = [],
       invoked = [(describe_cmd, Completed 1 [] ''boom'' Map.empty)]\<rparr>)"
  by (simp add: run_def Let_def initial_def)

text \<open>
  Claim C6. \<open>parse_env_file\<close> on a path that does not exist returns the empty dictionary
  and leaves one more line on the console, the error report naming the path. When the
  dotenv file is missing, the console of \<open>main\<close> holds the three header lines, that report
  and the "no environment variables" line, and the exit code is 1. Whenever the dictionary
  parsed from the dotenv file is empty, for a missing file or a file without entries,
  \<open>main\<close> prints the "no environment variables" line last and exits with code 1 without
  invoking any command.
\<close>

theorem missing_or_empty_env_file:
  "(files s path = None \<longrightarrow>
      parse_env_file path s = ([], print (''Error: '' @ path @ '' not found.'') s) \<and>
      fst (parse_env_file path s) = [] \<and>
      console (snd (parse_env_file path s)) = console s @ [''Error: '' @ path @ '' not found.'']) \<and>
   (fs ENV_FILE = None \<longrightarrow>
      console (snd (main ext (initial fs))) =
        [msg_project, msg_target, msg_reading, ''Error: '' @ ENV_FILE @ '' not found.'',
         msg_no_env] \<and>
      exit_code (fst (main ext (initial fs))) = 1) \<and>
   (fst (parse_env_file ENV_FILE (initial fs)) = [] \<longrightarrow>
      fst (main ext (initial fs)) = Inl (SystemExit 1) \<and>
      exit_code (fst (main ext (initial fs))) = 1 \<and>
      invoked (snd (main ext (initial fs))) = [] \<and>
      (\<exists>pre. console (snd (main ext (initial fs))) = pre @ [msg_no_env]))"
proof -
  have a: "parse_env_file path s = ([], print (''Error: '' @ path @ '' not found.'') s) \<and>
      fst (parse_env_file path s) = [] \<and>
      console (snd (parse_env_file path s)) = console s @ [''Error: '' @ path @ '' not found.'']"
    if "files s path = None"
    using that by (simp add: parse_env_file_def print_def del: console_print)
  have b: "console (snd (main ext (initial fs))) =
        [msg_project, msg_target, msg_reading, ''Error: '' @ ENV_FILE @ '' not found.'',
         msg_no_env] \<and>
      exit_code (fst (main ext (initial fs))) = 1" if "fs ENV_FILE = None"
    using that
    by (simp add: main_def Let_def parse_env_file_def print_def initial_def exit_code_def
        del: console_print files_print invoked_print parse_env_file_print)
  have c: "fst (main ext (initial fs)) = Inl (SystemExit 1) \<and>
      exit_code (fst (main ext (initial fs))) = 1 \<and>
      invoked (snd (main ext (initial fs))) = [] \<and>
      (\<exists>pre. console (snd (main ext (initial fs))) = pre @ [msg_no_env])"
    if "fst (parse_env_file ENV_FILE (initial fs)) = []"
    using that
    by (auto simp add: main_def Let_def parse_env_file_def print_def initial_def exit_code_def
        split: option.splits
        simp del: console_print files_print invoked_print parse_env_file_print)
  from a b c show ?thesis
    by blast
qed

theorem missing_or_empty_env_file_witness:
  "parse_env_file ENV_FILE (initial Map.empty) =
     ([], \<lparr>files = Map.empty, console = [''Error: .env.local not found.''], invoked = []\<rparr>) \<and>
   files (initial Map.empty) ENV_FILE = None \<and>
   fst (parse_env_file ENV_FILE (initial Map.empty)) = [] \<and>
   console (snd (parse_env_file ENV_FILE (initial Map.empty))) = [''Error: .env.local not found.''] \<and>
   console (snd (main build_fails (initial Map.empty))) =
     [''Project: limitless-ai-483404 (Limitless.ai)'',
      ''Target URL: https://openwork-217388700222.us-central1.run.app'',
      ''Reading env from .env.local...'',
      ''Error: .env.local not found.'',
      ''No environment variables found. Exiting.''] \<and>
   exit_code (fst (main build_fails (initial Map.empty))) = 1 \<and>
   fst (parse_env_file ENV_FILE (initial [ENV_FILE \<mapsto> ''# nothing here''])) = [] \<and>
   exit_code (fst (main build_fails (initial [ENV_FILE \<mapsto> ''# nothing here'']))) = 1 \<and>
   (\<exists>pre. console (snd (main build_fails (initial [ENV_FILE \<mapsto> ''# nothing here'']))) =
      pre @ [''No environment variables found. Exiting.''])"
proof -
  have a: "files (initial Map.empty) ENV_FILE = None"
    by simp
  have a': "(Map.empty :: string \<rightharpoonup> string) ENV_FILE = None"
    by simp
  have b: "fst (parse_env_file ENV_FILE (initial [ENV_FILE \<mapsto> ''# nothing here''])) = []"
    by code_simp
  note t1 = missing_or_empty_env_file [of "initial Map.empty" ENV_FILE Map.empty build_fails]
  note t2 = missing_or_empty_env_file [of "initial Map.empty" ENV_FILE
      "[ENV_FILE \<mapsto> ''# nothing here'']" build_fails]
  from t1 a have x1: "fst (parse_env_file ENV_FILE (initial Map.empty)) = []"
    and x2: "console (snd (parse_env_file ENV_FILE (initial Map.empty))) =
      console (initial Map.empty) @ [''Error: '' @ ENV_FILE @ '' not found.'']"
    by blast+
  from x2 have x2': "console (snd (parse_env_file ENV_FILE (initial Map.empty))) =
      [''Error: .env.local not found.'']"
    by (simp add: ENV_FILE_def)
  from t1 a' have x3: "console (snd (main build_fails (initial Map.empty))) =
      [msg_project, msg_target, msg_reading, ''Error: '' @ ENV_FILE @ '' not found.'', msg_no_env]"
    and x4: "exit_code (fst (main build_fails (initial Map.empty))) = 1"
    by blast+
  from x3 have x3': "console (snd (main build_fails (initial Map.empty))) =
     [''Project: limitless-ai-483404 (Limitless.ai)'',
      ''Target URL: https://openwork-217388700222.us-central1.run.app'',
      ''Reading env from .env.local...'',
      ''Error: .env.local not found.'',
      ''No environment variables found. Exiting.'']"
    by (simp add: ENV_FILE_def msg_project_def PROJECT_ID_def msg_target_def
        msg_reading_def msg_no_env_def)
  from t2 b have x5:
    "exit_code (fst (main build_fails (initial [ENV_FILE \<mapsto> ''# nothing here'']))) = 1"
    and x6: "\<exists>pre. console (snd (main build_fails (initial [ENV_FILE \<mapsto> ''# nothing here'']))) =
      pre @ [msg_no_env]"
    by blast+
  from x6 have x6': "\<exists>pre. console (snd (main build_fails (initial [ENV_FILE \<mapsto> ''# nothing here'']))) =
      pre @ [''No environment variables found. Exiting.'']"
    by (simp add: msg_no_env_def)
  have d: "parse_env_file ENV_FILE (initial Map.empty) =
     ([], \<lparr>files = Map.empty, console = [''Error: .env.local not found.''], invoked = []\<rparr>)"
    by (simp add: parse_env_file_def print_def initial_def ENV_FILE_def)
  from d a x1 x2' x3' x4 b x5 x6' show ?thesis
    by blast
qed

text \<open>
  Claim C7. If the parsed dictionary is not empty and \<open>GEMINI_API_KEY\<close> is absent from it or
  bound to the empty string, \<open>main\<close> prints the warning and then goes on to the build step:
  the console starts with the three header lines, the warning and the build banner, and the
  first command invoked is the build command, run with the temporary file in place.
\<close>

theorem missing_key_warns_and_builds:
  assumes "fst (parse_env_file ENV_FILE (initial fs)) = env_vars"
    and "env_vars \<noteq> []"
    and "map_of env_vars ''GEMINI_API_KEY'' = None \<or> map_of env_vars ''GEMINI_API_KEY'' = Some []"
  shows "(\<exists>rest. console (snd (main ext (initial fs))) =
            [msg_project, msg_target, msg_reading, msg_warning, msg_build] @ rest) \<and>
         (\<exists>rest. invoked (snd (main ext (initial fs))) =
            (build_cmd, exec ext build_cmd (fs(TEMP_ENV_YAML \<mapsto> yaml_dump ext env_vars))) # rest)"
proof -
  let ?s = "prepared ext env_vars (initial fs)"
  from assms(1,2) have m: "main ext (initial fs) = (fst (main_try ext ?s), cleanup (snd (main_try ext ?s)))"
    using main_nonempty [of "initial fs" ext] by simp
  from assms(3) have w: "or_str (map_of env_vars ''GEMINI_API_KEY'') [] = []"
    by (auto simp add: or_str_def)
  from main_try_console [of ext ?s] w have
    "\<exists>rest. console (snd (main_try ext ?s)) =
        [msg_project, msg_target, msg_reading, msg_warning, msg_build] @ rest"
    by (simp add: console_prepared)
  moreover from main_try_invoked [of ext ?s] have
    "\<exists>rest. invoked (snd (main_try ext ?s)) =
        (build_cmd, exec ext build_cmd (fs(TEMP_ENV_YAML \<mapsto> yaml_dump ext env_vars))) # rest"
    by (simp add: files_prepared)
  ultimately show ?thesis
    by (simp add: m)
qed

theorem missing_key_warns_and_builds_witness:
  "fst (parse_env_file ENV_FILE (initial example_files)) = [(''A'', ''1''), (''B'', ''two'')] \<and>
   [(''A'', ''1''), (''B'', ''two'')] \<noteq> ([] :: (string \<times> string) list) \<and>
   map_of [(''A'', ''1''), (''B'', ''two'')] ''GEMINI_API_KEY'' = None \<and>
   (\<exists>rest. console (snd (main build_fails (initial example_files))) =
            [msg_project, msg_target, msg_reading, msg_warning, msg_build] @ rest) \<and>
   (\<exists>rest. invoked (snd (main build_fails (initial example_files))) =
            (build_cmd, exec build_fails build_cmd
               (example_files(TEMP_ENV_YAML \<mapsto>
                  yaml_dump build_fails [(''A'', ''1''), (''B'', ''two'')]))) # rest)"
proof -
  have k: "map_of [(''A'', ''1''), (''B'', ''two'')] ''GEMINI_API_KEY'' = None"
    by simp
  have ne: "[(''A'', ''1''), (''B'', ''two'')] \<noteq> ([] :: (string \<times> string) list)"
    by simp
  from missing_key_warns_and_builds [OF example_parsed ne disjI1 [OF k], of build_fails]
    example_parsed k ne show ?thesis
    by blast
qed

text \<open>
  Claim C8. If the trace of a run shows the describe command completing with return code 0
  and standard output \<open>out\<close>, the process exits with code 0 and the console ends as follows:
  when \<open>out\<close> is empty after trimming, with the fallback URL and the "finished" message, the
  success message being absent; otherwise with the trimmed output and the success message,
  the "finished" message being absent.
\<close>

theorem describe_output:
  assumes "(describe_cmd, Completed 0 out err fs') \<in> set (invoked (snd (main ext (initial fs))))"
  shows "exit_code (fst (main ext (initial fs))) = 0 \<and>
         (strip out \<noteq> [] \<longrightarrow>
            (\<exists>pre. console (snd (main ext (initial fs))) = pre @ [''  '' @ strip out, msg_success]) \<and>
            msg_finished \<notin> set (console (snd (main ext (initial fs))))) \<and>
         (strip out = [] \<longrightarrow>
            (\<exists>pre. console (snd (main ext (initial fs))) = pre @ [msg_fallback_url, msg_finished]) \<and>
            msg_success \<notin> set (console (snd (main ext (initial fs)))))"
proof (cases "fst (parse_env_file ENV_FILE (initial fs)) = []")
  case True
  with assms show ?thesis
    by (simp add: main_empty)
next
  case False
  let ?s = "prepared ext (fst (parse_env_file ENV_FILE (initial fs))) (initial fs)"
  from False have m: "main ext (initial fs) = (fst (main_try ext ?s), cleanup (snd (main_try ext ?s)))"
    by (rule main_nonempty)
  from assms have "(describe_cmd, Completed 0 out err fs') \<in> set (invoked (snd (main_try ext ?s)))"
    by (simp add: m)
  then have d: "fst (main_try ext ?s) = Inr () \<and>
         console (snd (main_try ext ?s)) =
           console ?s @ [msg_build, msg_deploy, msg_url] @
             (if strip out \<noteq> [] then [''  '' @ strip out, msg_success]
              else [msg_fallback_url, msg_finished])"
    by (rule main_try_described) simp
  show ?thesis
    using msgs_distinct
    by (simp add: m d console_prepared exit_code_def)
qed

theorem describe_output_witness:
  "(describe_cmd, Completed 0 [CHR 0x0A] []
      (example_files(TEMP_ENV_YAML \<mapsto> example_dump [(''A'', ''1''), (''B'', ''two'')])))
     \<in> set (invoked (snd (main (all_succeed [CHR 0x0A]) (initial example_files)))) \<and>
   strip [CHR 0x0A] = [] \<and>
   (\<exists>pre. console (snd (main (all_succeed [CHR 0x0A]) (initial example_files))) =
      pre @ [msg_fallback_url, msg_finished]) \<and>
   msg_success \<notin> set (console (snd (main (all_succeed [CHR 0x0A]) (initial example_files))))"
proof -
  have mem: "(describe_cmd, Completed 0 [CHR 0x0A] []
      (example_files(TEMP_ENV_YAML \<mapsto> example_dump [(''A'', ''1''), (''B'', ''two'')])))
     \<in> set (invoked (snd (main (all_succeed [CHR 0x0A]) (initial example_files))))"
    by (simp add: all_succeed_trace)
  have e: "strip [CHR 0x0A] = []"
    by code_simp
  from describe_output [OF mem] mem e show ?thesis
    by blast
qed

text \<open>
  Claim C4. Let the file at \<open>path\<close> have a line \<open>KEY=VALUE\<close>, optionally followed by a
  comment that starts with \<open>#\<close>, where the key holds neither \<open>=\<close> nor \<open>#\<close> and the value
  holds no \<open>#\<close>. Then the dictionary that \<open>parse_env_file\<close> returns has an entry for the
  trimmed key, and unless a later line of the file binds the same key again, the entry maps
  it to the trimmed value with one matching outer pair of quotes removed, in the
  specification's reading of quoting. The value may hold \<open>=\<close>: only the first \<open>=\<close> of the
  line separates key and value. A value that is one lone quote character is not wrapped in
  a pair and is left to claim C10.
\<close>

theorem parse_well_formed_line:
  assumes "files s path = Some content"
    and "read_lines content = pre @ (key @ [equals] @ val @ comment) # post"
    and "equals \<notin> set key" and "hash \<notin> set key"
    and "hash \<notin> set val"
    and "comment = [] \<or> startswith comment hash"
    and "strip val \<noteq> [dquote]" and "strip val \<noteq> [squote]"
  shows "parse_line (key @ [equals] @ val @ comment) = Some (strip key, spec_unquoted (strip val)) \<and>
         parse_step (key @ [equals] @ val @ comment) env_vars =
           AList.update (strip key) (spec_unquoted (strip val)) env_vars \<and>
         strip key \<in> fst ` set (fst (parse_env_file path s)) \<and>
         ((\<forall>l \<in> set post. map_option fst (parse_line l) \<noteq> Some (strip key)) \<longrightarrow>
            map_of (fst (parse_env_file path s)) (strip key) = Some (spec_unquoted (strip val)))"
proof -
  note parts = well_formed_line_parts [OF assms(3,4) assms(5) assms(6)]
  have "parse_line (key @ equals # val @ comment) =
      (let line = strip (key @ equals # val @ comment);
           line1 = (if hash \<in> set line then strip (fst (split_first hash line)) else line)
       in if equals \<in> set line1 then
            (let (k, v) = split_first equals line1
             in Some (strip k, unquote (strip v)))
          else None)"
    using parts(1,2) by (simp add: parse_line_def Let_def)
  also have "\<dots> = Some (strip (lstrip key), unquote (strip (rstrip val)))"
    unfolding Let_def parts(3) parts(5) using parts(4) by (simp only: if_True prod.case)
  finally have pl: "parse_line (key @ equals # val @ comment) =
      Some (strip key, unquote (strip val))"
    by simp
  have "unquote (strip val) = spec_unquoted (strip val)"
    using assms(7,8)
    by (simp add: unquote_def spec_unquoted_def quote_test_spec slice_spec)
  with pl have p: "parse_line (key @ equals # val @ comment) =
      Some (strip key, spec_unquoted (strip val))"
    by simp
  have e: "fst (parse_env_file path s) =
      fold parse_step post
        (AList.update (strip key) (spec_unquoted (strip val)) (fold parse_step pre []))"
    using assms(1,2) p by (simp add: parse_env_file_def parse_step_def)
  have "strip key \<in> fst ` set (fst (parse_env_file path s))"
    unfolding e by (rule fold_parse_step_keys) (simp add: dom_update)
  moreover have "map_of (fst (parse_env_file path s)) (strip key) =
      Some (spec_unquoted (strip val))"
    if "\<forall>l \<in> set post. map_option fst (parse_line l) \<noteq> Some (strip key)"
    using fold_parse_step_other [OF that] by (simp add: e update_conv')
  ultimately show ?thesis
    using p by (simp add: parse_step_def)
qed

theorem parse_well_formed_line_witness:
  "read_lines (''A=0'' @ [CHR 0x0A] @
      ''  URL = '' @ [dquote] @ ''https://x?a=1'' @ [dquote] @ ''  # endpoint'' @ [CHR 0x0A] @
      ''B=2'') =
     [''A=0'' @ [CHR 0x0A]] @
     (''  URL '' @ [equals] @ ('' '' @ [dquote] @ ''https://x?a=1'' @ [dquote] @ ''  '') @
        (''# endpoint'' @ [CHR 0x0A])) # [''B=2''] \<and>
   equals \<notin> set ''  URL '' \<and> hash \<notin> set ''  URL '' \<and>
   hash \<notin> set ('' '' @ [dquote] @ ''https://x?a=1'' @ [dquote] @ ''  '') \<and>
   startswith (''# endpoint'' @ [CHR 0x0A]) hash \<and>
   map_option fst (parse_line ''B=2'') \<noteq> Some ''URL'' \<and>
   fst (parse_env_file ENV_FILE
      (initial [ENV_FILE \<mapsto> ''A=0'' @ [CHR 0x0A] @
         ''  URL = '' @ [dquote] @ ''https://x?a=1'' @ [dquote] @ ''  # endpoint'' @ [CHR 0x0A] @
         ''B=2''])) = [(''A'', ''0''), (''URL'', ''https://x?a=1''), (''B'', ''2'')] \<and>
   map_of (fst (parse_env_file ENV_FILE
      (initial [ENV_FILE \<mapsto> ''A=0'' @ [CHR 0x0A] @
         ''  URL = '' @ [dquote] @ ''https://x?a=1'' @ [dquote] @ ''  # endpoint'' @ [CHR 0x0A] @
         ''B=2'']))) ''URL'' = Some ''https://x?a=1''"
proof -
  let ?content = "''A=0'' @ [CHR 0x0A] @
      ''  URL = '' @ [dquote] @ ''https://x?a=1'' @ [dquote] @ ''  # endpoint'' @ [CHR 0x0A] @
      ''B=2''"
  let ?val = "'' '' @ [dquote] @ ''https://x?a=1'' @ [dquote] @ ''  ''"
  let ?comment = "''# endpoint'' @ [CHR 0x0A]"
  have f: "files (initial [ENV_FILE \<mapsto> ?content]) ENV_FILE = Some ?content"
    by simp
  have r: "read_lines ?content =
      [''A=0'' @ [CHR 0x0A]] @ (''  URL '' @ [equals] @ ?val @ ?comment) # [''B=2'']"
    by code_simp
  have h1: "equals \<notin> set ''  URL ''" and h2: "hash \<notin> set ''  URL ''"
    by code_simp+
  have h3: "hash \<notin> set ?val"
    by code_simp
  have h4: "startswith ?comment hash"
    by code_simp
  have h5: "strip ?val \<noteq> [dquote]" and h6: "strip ?val \<noteq> [squote]"
    by code_simp+
  have k: "strip ''  URL '' = ''URL''"
    by code_simp
  have v: "spec_unquoted (strip ?val) = ''https://x?a=1''"
    by code_simp
  have o: "map_option fst (parse_line ''B=2'') \<noteq> Some ''URL''"
    by code_simp
  then have o': "\<forall>l \<in> set [''B=2'']. map_option fst (parse_line l) \<noteq> Some ''URL''"
    by simp
  have d: "fst (parse_env_file ENV_FILE (initial [ENV_FILE \<mapsto> ?content])) =
      [(''A'', ''0''), (''URL'', ''https://x?a=1''), (''B'', ''2'')]"
    by code_simp
  from parse_well_formed_line [OF f r h1 h2 h3 disjI2 [OF h4] h5 h6] r h1 h2 h3 h4 o o' d
  show ?thesis
    unfolding k v by blast
qed

text \<open>
  Claim C10. Let the file at \<open>path\<close> have a line whose value, after trimming, is exactly one
  double quote or one single quote. That character passes both the starts-with and the
  ends-with test and the slice \<open>[1:-1]\<close> of it is empty, so the dictionary that
  \<open>parse_env_file\<close> returns has an entry for the trimmed key, and unless a later line binds
  the same key again, the entry maps it to the empty string.
\<close>

theorem lone_quote_value:
  assumes "files s path = Some content"
    and "read_lines content = pre @ (key @ [equals] @ val @ comment) # post"
    and "equals \<notin> set key" and "hash \<notin> set key"
    and "strip val = [q]" and "q = dquote \<or> q = squote"
    and "comment = [] \<or> startswith comment hash"
  shows "startswith (strip val) q \<and> endswith (strip val) q \<and> slice_1_m1 (strip val) = [] \<and>
         parse_line (key @ [equals] @ val @ comment) = Some (strip key, []) \<and>
         parse_step (key @ [equals] @ val @ comment) env_vars = AList.update (strip key) [] env_vars \<and>
         strip key \<in> fst ` set (fst (parse_env_file path s)) \<and>
         ((\<forall>l \<in> set post. map_option fst (parse_line l) \<noteq> Some (strip key)) \<longrightarrow>
            map_of (fst (parse_env_file path s)) (strip key) = Some [])"
proof -
  have hv: "hash \<notin> set val"
  proof
    assume "hash \<in> set val"
    from set_strip [OF this] assms(5,6) show False
      by auto
  qed
  note parts = well_formed_line_parts [OF assms(3,4) hv assms(7)]
  have "parse_line (key @ equals # val @ comment) =
      (let line = strip (key @ equals # val @ comment);
           line1 = (if hash \<in> set line then strip (fst (split_first hash line)) else line)
       in if equals \<in> set line1 then
            (let (k, v) = split_first equals line1
             in Some (strip k, unquote (strip v)))
          else None)"
    using parts(1,2) by (simp add: parse_line_def Let_def)
  also have "\<dots> = Some (strip (lstrip key), unquote (strip (rstrip val)))"
    unfolding Let_def parts(3) parts(5) using parts(4) by (simp only: if_True prod.case)
  finally have pl: "parse_line (key @ equals # val @ comment) =
      Some (strip key, unquote (strip val))"
    by simp
  have t: "startswith (strip val) q \<and> endswith (strip val) q \<and> slice_1_m1 (strip val) = []"
    using assms(5) by (simp add: startswith_def endswith_def slice_1_m1_def)
  have "unquote (strip val) = []"
    using assms(5,6) by (auto simp add: unquote_def startswith_def endswith_def slice_1_m1_def)
  with pl have p: "parse_line (key @ equals # val @ comment) = Some (strip key, [])"
    by simp
  have e: "fst (parse_env_file path s) =
      fold parse_step post (AList.update (strip key) [] (fold parse_step pre []))"
    using assms(1,2) p by (simp add: parse_env_file_def parse_step_def)
  have "strip key \<in> fst ` set (fst (parse_env_file path s))"
    unfolding e by (rule fold_parse_step_keys) (simp add: dom_update)
  moreover have "map_of (fst (parse_env_file path s)) (strip key) = Some []"
    if "\<forall>l \<in> set post. map_option fst (parse_line l) \<noteq> Some (strip key)"
    using fold_parse_step_other [OF that] by (simp add: e update_conv')
  ultimately show ?thesis
    using p t by (simp add: parse_step_def)
qed

theorem lone_quote_value_witness:
  "read_lines (''# quotes'' @ [CHR 0x0A] @ ''K = '' @ [dquote] @ ''  '') =
     [''# quotes'' @ [CHR 0x0A]] @ (''K '' @ [equals] @ ('' '' @ [dquote] @ ''  '') @ []) # [] \<and>
   equals \<notin> set ''K '' \<and> hash \<notin> set ''K '' \<and> strip ('' '' @ [dquote] @ ''  '') = [dquote] \<and>
   fst (parse_env_file ENV_FILE
      (initial [ENV_FILE \<mapsto> ''# quotes'' @ [CHR 0x0A] @ ''K = '' @ [dquote] @ ''  ''])) =
     [(''K'', [])] \<and>
   map_of (fst (parse_env_file ENV_FILE
      (initial [ENV_FILE \<mapsto> ''# quotes'' @ [CHR 0x0A] @ ''K = '' @ [dquote] @ ''  ''])))
      ''K'' = Some []"
proof -
  let ?content = "''# quotes'' @ [CHR 0x0A] @ ''K = '' @ [dquote] @ ''  ''"
  let ?val = "'' '' @ [dquote] @ ''  ''"
  have f: "files (initial [ENV_FILE \<mapsto> ?content]) ENV_FILE = Some ?content"
    by simp
  have r: "read_lines ?content =
      [''# quotes'' @ [CHR 0x0A]] @ (''K '' @ [equals] @ ?val @ []) # []"
    by code_simp
  have h1: "equals \<notin> set ''K ''" and h2: "hash \<notin> set ''K ''"
    by code_simp+
  have h3: "strip ?val = [dquote]"
    by code_simp
  have k: "strip ''K '' = ''K''"
    by code_simp
  have o: "\<forall>l \<in> set ([] :: string list). map_option fst (parse_line l) \<noteq> Some ''K''"
    by simp
  have d: "fst (parse_env_file ENV_FILE (initial [ENV_FILE \<mapsto> ?content])) = [(''K'', [])]"
    by code_simp
  from lone_quote_value [OF f r h1 h2 h3 disjI1 [OF refl] disjI1 [OF refl]] r h1 h2 h3 o d
  show ?thesis
    unfolding k by blast
qed

text \<open>
  Claim C9. If a line of the file binds \<open>key\<close> to \<open>val\<close> and no later line binds \<open>key\<close>,
  then \<open>parse_env_file\<close> returns a dictionary in which \<open>key\<close> is bound to \<open>val\<close>, whatever
  the earlier lines bound it to: the last line that bears the key wins.
\<close>

theorem last_binding_wins:
  assumes "files s path = Some content"
    and "read_lines content = pre @ line # post"
    and "parse_line line = Some (key, val)"
    and "\<forall>l \<in> set post. map_option fst (parse_line l) \<noteq> Some key"
  shows "map_of (fst (parse_env_file path s)) key = Some val"
proof -
  have "fst (parse_env_file path s) =
      fold parse_step post (AList.update key val (fold parse_step pre []))"
    using assms(1-3) by (simp add: parse_env_file_def parse_step_def)
  with fold_parse_step_other [OF assms(4)] show ?thesis
    by (simp add: update_conv')
qed

theorem last_binding_wins_witness:
  "read_lines (''A=1'' @ [CHR 0x0A] @ ''A=3'' @ [CHR 0x0A] @ ''B=2'' @ [CHR 0x0A]) =
     [''A=1'' @ [CHR 0x0A]] @ (''A=3'' @ [CHR 0x0A]) # [''B=2'' @ [CHR 0x0A]] \<and>
   parse_line (''A=1'' @ [CHR 0x0A]) = Some (''A'', ''1'') \<and>
   parse_line (''A=3'' @ [CHR 0x0A]) = Some (''A'', ''3'') \<and>
   map_of (fst (parse_env_file ENV_FILE
     (initial [ENV_FILE \<mapsto> ''A=1'' @ [CHR 0x0A] @ ''A=3'' @ [CHR 0x0A] @ ''B=2'' @ [CHR 0x0A]])))
     ''A'' = Some ''3''"
proof -
  let ?content = "''A=1'' @ [CHR 0x0A] @ ''A=3'' @ [CHR 0x0A] @ ''B=2'' @ [CHR 0x0A]"
  have f: "files (initial [ENV_FILE \<mapsto> ?content]) ENV_FILE = Some ?content"
    by simp
  have r: "read_lines ?content =
     [''A=1'' @ [CHR 0x0A]] @ (''A=3'' @ [CHR 0x0A]) # [''B=2'' @ [CHR 0x0A]]"
    by code_simp
  have p1: "parse_line (''A=1'' @ [CHR 0x0A]) = Some (''A'', ''1'')"
    by code_simp
  have p: "parse_line (''A=3'' @ [CHR 0x0A]) = Some (''A'', ''3'')"
    by code_simp
  have o: "\<forall>l \<in> set [''B=2'' @ [CHR 0x0A]]. map_option fst (parse_line l) \<noteq> Some ''A''"
    by code_simp
  from last_binding_wins [OF f r p o] r p1 p show ?thesis
    by blast
qed

end
